theory Spec2Isabelle
  imports Complex_Main "HOL-Library.Char_ord" "HOL-Library.List_Lexorder"
begin

section \<open>Synthetic data generation (chart.py, lines 11-33)\<close>

text \<open>
  The script draws all its random numbers from one NumPy generator,
  \<^verbatim>\<open>rng = np.random.default_rng(seed=42)\<close>.  NumPy is not part of the repository, so it is
  a parameter of the model: a state type \<open>'g\<close> of the generator together with the operations
  the script calls on it.  Each operation draws one value and returns the advanced state; a
  call with \<^verbatim>\<open>size=n\<close> is \<open>n\<close> draws in sequence (\<open>draws\<close>).

  Floating-point numbers are reals, and sums and products are exact.  Rounding to two
  decimals is not continuous, so there the float64 arithmetic is kept: \<open>float64 x\<close> is the
  float64 that an exact result \<open>x\<close> is rounded to, the last parameter that NumPy provides.
\<close>

record 'g NumPy =
  default_rng :: "nat \<Rightarrow> 'g"
  lognormal :: "real \<Rightarrow> real \<Rightarrow> 'g \<Rightarrow> real \<times> 'g"
  choice :: "nat list \<Rightarrow> real list \<Rightarrow> 'g \<Rightarrow> nat \<times> 'g"
  uniform :: "real \<Rightarrow> real \<Rightarrow> 'g \<Rightarrow> real \<times> 'g"
  float64 :: "real \<Rightarrow> real"

fun draws :: "('g \<Rightarrow> 'a \<times> 'g) \<Rightarrow> nat \<Rightarrow> 'g \<Rightarrow> 'a list \<times> 'g" where
  "draws f 0 g = ([], g)"
| "draws f (Suc k) g =
     (case f g of (x, g1) \<Rightarrow> (case draws f k g1 of (xs, g2) \<Rightarrow> (x # xs, g2)))"

text \<open>\<^verbatim>\<open>n_customers = 1200\<close> (line 14); the script never reads it again.\<close>

definition n_customers :: nat where
  "n_customers = 1200"

text \<open>
  The \<^verbatim>\<open>segments\<close> dictionary (lines 17-21).  A Python dict iterates in insertion order, so
  it is an association list; each value is the triple \<open>(n, mu, sigma)\<close>.
\<close>

type_synonym params = "nat \<times> real \<times> real"

definition segments :: "(string \<times> params) list" where
  "segments =
     [(''Low value'', (550, 3.0, 0.6)),
      (''Mid value'', (450, 4.2, 0.7)),
      (''High value'', (200, 5.0, 0.9))]"

record Row =
  segment :: string
  purchase_amount :: real

text \<open>
  Python's \<^verbatim>\<open>round(amt, 2)\<close> on a NumPy float multiplies by \<open>10 ^ 2\<close>, rounds to the
  nearest integer with ties going to the even neighbour (\<open>rint\<close>), and divides by \<open>10 ^ 2\<close>;
  the product and the quotient are float64 results (\<open>fl\<close>).
\<close>

definition rint :: "real \<Rightarrow> int" where
  "rint x =
     (let f = \<lfloor>x\<rfloor>; d = x - of_int f
      in if d < 1 / 2 then f else if 1 / 2 < d then f + 1 else if even f then f else f + 1)"

definition round_nd :: "(real \<Rightarrow> real) \<Rightarrow> real \<Rightarrow> nat \<Rightarrow> real" where
  "round_nd fl x nd = fl (of_int (rint (fl (x * 10 ^ nd))) / 10 ^ nd)"

text \<open>
  Lines 26-29 for one segment: \<open>n\<close> lognormal draws, then \<open>n\<close> draws of the outlier mark from
  \<open>[0, 1]\<close> with probabilities \<open>[0.97, 0.03]\<close>, then \<open>n\<close> uniform draws from \<open>[3.0, 10.0)\<close>, in
  this order on the one generator.  \<open>segment_draws\<close> returns the three arrays.
\<close>

definition segment_draws ::
    "'g NumPy \<Rightarrow> params \<Rightarrow> 'g \<Rightarrow> (real list \<times> nat list \<times> real list) \<times> 'g" where
  "segment_draws G p g =
     (case p of (n, mu, sigma) \<Rightarrow>
        (case draws (lognormal G mu sigma) n g of (samples, g1) \<Rightarrow>
        (case draws (choice G [0, 1] [0.97, 0.03]) n g1 of (heavy_tail, g2) \<Rightarrow>
        (case draws (uniform G 3.0 10.0) n g2 of (us, g3) \<Rightarrow>
           ((samples, heavy_tail, us), g3)))))"

text \<open>Line 29, elementwise: \<^verbatim>\<open>samples * (1 + heavy_tail * u)\<close>.\<close>

definition inflate :: "real \<times> nat \<times> real \<Rightarrow> real" where
  "inflate t = (case t of (s, h, u) \<Rightarrow> s * (1 + real h * u))"

definition apply_heavy_tail :: "real list \<times> nat list \<times> real list \<Rightarrow> real list" where
  "apply_heavy_tail d = (case d of (samples, heavy_tail, us) \<Rightarrow>
     map inflate (zip samples (zip heavy_tail us)))"

definition segment_samples :: "'g NumPy \<Rightarrow> params \<Rightarrow> 'g \<Rightarrow> real list \<times> 'g" where
  "segment_samples G p g = (case segment_draws G p g of (d, g') \<Rightarrow> (apply_heavy_tail d, g'))"

text \<open>The loop over \<^verbatim>\<open>segments.items()\<close> (lines 23-31), threading the generator.\<close>

definition mk_row :: "(real \<Rightarrow> real) \<Rightarrow> string \<Rightarrow> real \<Rightarrow> Row" where
  "mk_row fl seg amt = \<lparr>segment = seg, purchase_amount = round_nd fl amt 2\<rparr>"

fun gen_rows :: "'g NumPy \<Rightarrow> (string \<times> params) list \<Rightarrow> 'g \<Rightarrow> Row list" where
  "gen_rows G [] g = []"
| "gen_rows G ((seg, p) # rest) g =
     (case segment_samples G p g of (samples, g') \<Rightarrow>
        map (mk_row (float64 G) seg) samples @ gen_rows G rest g')"

definition df :: "'g NumPy \<Rightarrow> Row list" where
  "df G = gen_rows G segments (default_rng G 42)"

text \<open>
  For stating properties of the draws: \<open>state_after G segs g\<close> is the generator state once
  the listed segments have been generated from \<open>g\<close>, and \<open>draws_of G k\<close> are the three arrays
  drawn for the \<open>k\<close>-th configured segment in the run from seed 42.
\<close>

fun state_after :: "'g NumPy \<Rightarrow> (string \<times> params) list \<Rightarrow> 'g \<Rightarrow> 'g" where
  "state_after G [] g = g"
| "state_after G ((seg, p) # rest) g = state_after G rest (snd (segment_samples G p g))"

definition draws_of :: "'g NumPy \<Rightarrow> nat \<Rightarrow> real list \<times> nat list \<times> real list" where
  "draws_of G k =
     fst (segment_draws G (snd (segments ! k)) (state_after G (take k segments) (default_rng G 42)))"

text \<open>
  What NumPy documents of the three distributions, as far as the properties below need it:
  a lognormal draw is positive, \<^verbatim>\<open>choice\<close> returns one of the offered values, and a
  uniform draw lies between its bounds.
\<close>

definition in_support :: "'g NumPy \<Rightarrow> bool" where
  "in_support G \<longleftrightarrow>
     (\<forall>mu sigma g. 0 < fst (lognormal G mu sigma g)) \<and>
     (\<forall>xs ps g. xs \<noteq> [] \<longrightarrow> fst (choice G xs ps g) \<in> set xs) \<and>
     (\<forall>a b g. a \<le> b \<longrightarrow> a \<le> fst (uniform G a b g) \<and> fst (uniform G a b g) \<le> b)"

section \<open>Summary statistics (pandas)\<close>

datatype error = ValueError | KeyError | IndexError

text \<open>
  A float that may be NaN is a \<open>real option\<close>, \<open>None\<close> being NaN: pandas returns NaN for the
  quantile and the median of an empty Series.

  \<^verbatim>\<open>Series.quantile(q)\<close> interpolates linearly between the two order statistics around
  position \<open>(n - 1) * q\<close>, and raises ValueError when \<open>q\<close> is outside \<open>[0, 1]\<close>.
\<close>

definition quantile :: "real list \<Rightarrow> real \<Rightarrow> error + real option" where
  "quantile xs q =
     (if q < 0 \<or> 1 < q then Inl ValueError
      else if xs = [] then Inr None
      else
        let s = sort xs;
            pos = (real (length xs) - 1) * q;
            lo = nat \<lfloor>pos\<rfloor>;
            hi = min (lo + 1) (length xs - 1);
            t = pos - real lo
        in Inr (Some (s ! lo + (s ! hi - s ! lo) * t)))"

definition median :: "real list \<Rightarrow> real option" where
  "median xs =
     (if xs = [] then None
      else
        let s = sort xs; k = length xs div 2
        in Some (if odd (length xs) then s ! k else (s ! (k - 1) + s ! k) / 2))"

text \<open>
  \<^verbatim>\<open>df.groupby("segment")["purchase_amount"].median().round(2)\<close> (line 72).  \<open>groupby\<close> sorts
  the group keys (\<^verbatim>\<open>sort=True\<close> is the default); strings compare lexicographically by
  character code.  The result is a Series: its index (the sorted keys) paired with the values.
\<close>

definition group_values :: "Row list \<Rightarrow> string \<Rightarrow> real list" where
  "group_values rows k = map purchase_amount (filter (\<lambda>r. segment r = k) rows)"

definition groupby_median :: "(real \<Rightarrow> real) \<Rightarrow> Row list \<Rightarrow> (string \<times> real option) list" where
  "groupby_median fl rows =
     map (\<lambda>k. (k, map_option (\<lambda>m. round_nd fl m 2) (median (group_values rows k))))
       (sort (remdups (map segment rows)))"

text \<open>\<^verbatim>\<open>medians[seg]\<close>: lookup by label, KeyError when the label is absent.\<close>

definition series_get :: "(string \<times> 'a) list \<Rightarrow> string \<Rightarrow> error + 'a" where
  "series_get s k = (case map_of s k of None \<Rightarrow> Inl KeyError | Some v \<Rightarrow> Inr v)"

text \<open>
  \<^verbatim>\<open>df.sample(frac=0.25, random_state=1)\<close> (line 54) picks \<open>round(frac * len(df))\<close> rows
  without replacement, with a generator of its own seeded by \<open>random_state\<close>.  That generator is
  the parameter \<open>S\<close>: \<open>S seed n k\<close> is the list of the \<open>k\<close> positions it chooses among \<open>n\<close>
  rows.  Taking a position outside the frame raises IndexError.
\<close>

type_synonym sampler = "nat \<Rightarrow> nat \<Rightarrow> nat \<Rightarrow> nat list"

definition take_rows :: "'a list \<Rightarrow> nat list \<Rightarrow> error + 'a list" where
  "take_rows rows idx =
     (if \<forall>i \<in> set idx. i < length rows then Inr (map (\<lambda>i. rows ! i) idx) else Inl IndexError)"

definition sample_frac :: "sampler \<Rightarrow> 'a list \<Rightarrow> real \<Rightarrow> nat \<Rightarrow> error + 'a list" where
  "sample_frac S rows fraction random_state =
     take_rows rows (S random_state (length rows) (nat (rint (fraction * real (length rows)))))"

section \<open>Plotting (chart.py, lines 35-81)\<close>

text \<open>
  The axes are a record of what has been drawn on them; each plotting call returns the
  updated record.  Styling that carries no data (colours, line widths, font sizes, tick
  parameters, the seaborn style and context) is left out.

  \<^item> \<open>boxes\<close>: the boxes of \<^verbatim>\<open>sns.boxplot\<close>, the box at list position \<open>i\<close> drawn at
    \<open>x = i\<close>, with its category label and the values it summarises;
  \<^item> \<open>strip\<close>: the rows handed to \<^verbatim>\<open>sns.stripplot\<close>;
  \<^item> \<open>ylim\<close>: the limits of the vertical axis, \<open>None\<close> while they are chosen automatically;
  \<^item> \<open>texts\<close>: the calls of \<^verbatim>\<open>ax.text(x, y, s)\<close>, in order.
\<close>

record Axes =
  boxes :: "(string \<times> real list) list"
  strip :: "Row list"
  title :: string
  xlabel :: string
  ylabel :: string
  ylim :: "(real \<times> real) option"
  texts :: "(real \<times> real option \<times> string) list"

definition new_axes :: Axes where
  "new_axes = \<lparr>boxes = [], strip = [], title = [], xlabel = [], ylabel = [],
     ylim = None, texts = []\<rparr>"

text \<open>
  seaborn places the categories of a column of strings in their order of first appearance
  in the data.
\<close>

fun categorical_order :: "'a list \<Rightarrow> 'a list" where
  "categorical_order [] = []"
| "categorical_order (x # xs) = x # categorical_order (filter (\<lambda>y. y \<noteq> x) xs)"

definition boxplot :: "Row list \<Rightarrow> Axes \<Rightarrow> Axes" where
  "boxplot rows ax =
     ax\<lparr>boxes := map (\<lambda>k. (k, group_values rows k)) (categorical_order (map segment rows))\<rparr>"

definition stripplot :: "Row list \<Rightarrow> Axes \<Rightarrow> Axes" where
  "stripplot rows ax = ax\<lparr>strip := rows\<rparr>"

text \<open>
  \<^verbatim>\<open>ax.set_ylim(bottom, top)\<close> refuses a NaN limit with ValueError.  Otherwise it passes
  the two limits through the locator's \<^verbatim>\<open>nonsingular\<close> (expander 0.05, tiny \<open>1e-15\<close>) and
  stores them in the order given.  \<open>nonsingular\<close> widens an interval that is degenerate: both
  limits below \<open>1e21\<close> times the smallest normal float64 in magnitude give \<open>(-0.05, 0.05)\<close>,
  and limits closer than \<open>1e-15\<close> of their magnitude are moved apart by 5 percent each.  So
  \<^verbatim>\<open>set_ylim(0, 0)\<close> yields the limits \<open>(-0.05, 0.05)\<close>.
\<close>

definition float_tiny :: real where
  "float_tiny = 1 / 2 ^ 1022"

definition nonsingular :: "real \<Rightarrow> real \<Rightarrow> real \<times> real" where
  "nonsingular v0 v1 =
     (let vmin = min v0 v1; vmax = max v0 v1; maxabsvalue = max \<bar>vmin\<bar> \<bar>vmax\<bar>
      in if maxabsvalue < 10 ^ 21 * float_tiny then (- 0.05, 0.05)
         else if vmax - vmin \<le> maxabsvalue * (1 / 10 ^ 15) then
           (if vmax = 0 \<and> vmin = 0 then (- 0.05, 0.05)
            else (vmin - 0.05 * \<bar>vmin\<bar>, vmax + 0.05 * \<bar>vmax\<bar>))
         else (vmin, vmax))"

definition set_ylim :: "real \<Rightarrow> real option \<Rightarrow> Axes \<Rightarrow> error + Axes" where
  "set_ylim ymin ymax ax =
     (case ymax of
        None \<Rightarrow> Inl ValueError
      | Some t \<Rightarrow>
          (case nonsingular ymin t of
             (lo, hi) \<Rightarrow> Inr (ax\<lparr>ylim := Some (if t < ymin then (hi, lo) else (lo, hi))\<rparr>)))"

text \<open>
  The format \<^verbatim>\<open>f"{v:,.2f}"\<close>: two decimals, the integer part grouped in threes by commas.
  Only non-negative values occur here; for a negative value that rounds to zero Python
  prints a sign that this function does not.
\<close>

definition digit_char :: "nat \<Rightarrow> char" where
  "digit_char d = ''0123456789'' ! (d mod 10)"

fun decimal :: "nat \<Rightarrow> string" where
  "decimal k = (if k < 10 then [digit_char k] else decimal (k div 10) @ [digit_char k])"

declare decimal.simps [simp del]

fun commas_rev :: "string \<Rightarrow> string" where
  "commas_rev (a # b # c # d # rest) = a # b # c # CHR '','' # commas_rev (d # rest)"
| "commas_rev ds = ds"

definition format_2f :: "real option \<Rightarrow> string" where
  "format_2f v =
     (case v of
        None \<Rightarrow> ''nan''
      | Some x \<Rightarrow>
          let c = rint (x * 100); a = nat \<bar>c\<bar>
          in (if c < 0 then ''-'' else []) @ rev (commas_rev (rev (decimal (a div 100))))
             @ ''.'' @ [digit_char (a div 10), digit_char a])"

text \<open>
  The annotation loop (lines 73-75): \<open>i\<close> counts the labels of \<^verbatim>\<open>medians.index\<close>, and the
  text goes to \<open>x = i\<close>, \<open>y = median_val * 1.02\<close>.
\<close>

fun annotate ::
    "(string \<times> real option) list \<Rightarrow> nat \<Rightarrow> string list \<Rightarrow> Axes \<Rightarrow> error + Axes" where
  "annotate medians i [] ax = Inr ax"
| "annotate medians i (seg # rest) ax =
     (case series_get medians seg of
        Inl e \<Rightarrow> Inl e
      | Inr median_val \<Rightarrow>
          annotate medians (Suc i) rest
            (ax\<lparr>texts := texts ax @
               [(real i, map_option (\<lambda>m. m * 1.02) median_val,
                 ''Median: $'' @ format_2f median_val)]\<rparr>))"

text \<open>Lines 39-75: everything drawn on the axes.\<close>

definition decorate :: "Axes \<Rightarrow> Axes" where
  "decorate ax =
     ax\<lparr>title := ''Distribution of Purchase Amounts by Customer Segment'',
        xlabel := [], ylabel := ''Purchase amount (USD)''\<rparr>"

definition annotate_medians :: "(real \<Rightarrow> real) \<Rightarrow> Row list \<Rightarrow> Axes \<Rightarrow> error + Axes" where
  "annotate_medians fl rows ax =
     (let medians = groupby_median fl rows in annotate medians 0 (map fst medians) ax)"

definition draw :: "'g NumPy \<Rightarrow> sampler \<Rightarrow> error + Axes" where
  "draw G S =
     (case sample_frac S (df G) 0.25 1 of
        Inl e \<Rightarrow> Inl e
      | Inr sub \<Rightarrow>
          (case quantile (map purchase_amount (df G)) 0.995 of
             Inl e \<Rightarrow> Inl e
           | Inr q \<Rightarrow>
               (case set_ylim 0 (map_option (\<lambda>v. v * 1.05) q)
                       (decorate (stripplot sub (boxplot (df G) new_axes))) of
                  Inl e \<Rightarrow> Inl e
                | Inr ax \<Rightarrow> annotate_medians (float64 G) (df G) ax)))"

text \<open>
  Saving (lines 36, 77-81).  The figure is 8 by 8 inches.  \<^verbatim>\<open>plt.savefig\<close> writes the
  image under the given name, replacing a file of that name.  Its canvas is the figure's size
  times \<open>dpi\<close>; with \<^verbatim>\<open>bbox_inches="tight"\<close> the figure is first cropped to the bounding
  box of everything drawn, padded by \<^verbatim>\<open>savefig.pad_inches\<close> (0.1 inch) on each side, and
  the canvas takes the whole pixels of that size.  The bounding box depends on the text
  extents the rendering backend measures, after \<^verbatim>\<open>plt.tight_layout()\<close> has placed the axes;
  it is the parameter \<open>tightbbox\<close>, giving the box's width and height in inches.  A file is
  modelled by the pixel size of its image.
\<close>

record Figure =
  figsize :: "real \<times> real"
  axes :: Axes

record Image =
  px_width :: nat
  px_height :: nat

datatype bbox_inches = Whole | Tight

definition pad_inches :: real where
  "pad_inches = 0.1"

definition canvas_inches :: "(Figure \<Rightarrow> real \<times> real) \<Rightarrow> Figure \<Rightarrow> bbox_inches \<Rightarrow> real \<times> real" where
  "canvas_inches tightbbox fig bb =
     (case bb of
        Whole \<Rightarrow> figsize fig
      | Tight \<Rightarrow> (case tightbbox fig of (w, h) \<Rightarrow> (w + 2 * pad_inches, h + 2 * pad_inches)))"

definition savefig ::
    "(Figure \<Rightarrow> real \<times> real) \<Rightarrow> Figure \<Rightarrow> string \<Rightarrow> real \<Rightarrow> bbox_inches \<Rightarrow>
     (string \<rightharpoonup> Image) \<Rightarrow> (string \<rightharpoonup> Image)" where
  "savefig tightbbox fig fname dpi bb fs =
     (case canvas_inches tightbbox fig bb of
        (w, h) \<Rightarrow> fs(fname \<mapsto> \<lparr>px_width = nat \<lfloor>w * dpi\<rfloor>, px_height = nat \<lfloor>h * dpi\<rfloor>\<rparr>))"

text \<open>The whole script: the files before the run are mapped to the files after it.\<close>

definition chart ::
    "'g NumPy \<Rightarrow> sampler \<Rightarrow> (Figure \<Rightarrow> real \<times> real) \<Rightarrow>
     (string \<rightharpoonup> Image) \<Rightarrow> error + (string \<rightharpoonup> Image)" where
  "chart G S tightbbox fs =
     (case draw G S of
        Inl e \<Rightarrow> Inl e
      | Inr ax \<Rightarrow>
          Inr (savefig tightbbox \<lparr>figsize = (8, 8), axes = ax\<rparr> ''chart.png'' 64 Tight fs))"

section \<open>Auxiliary definitions for the properties\<close>

text \<open>
  The sampler's contract: the positions it chooses lie inside the frame.
\<close>

definition in_range :: "sampler \<Rightarrow> bool" where
  "in_range S \<longleftrightarrow> (\<forall>seed n k. k \<le> n \<longrightarrow> (\<forall>i \<in> set (S seed n k). i < n))"

text \<open>
  \<open>offset k\<close> is the position in the dataset of the first record of the \<open>k\<close>-th configured
  segment: the number of records of the segments before it.
\<close>

definition offset :: "nat \<Rightarrow> nat" where
  "offset k = sum_list (map (\<lambda>sp. fst (snd sp)) (take k segments))"

text \<open>
  The rounded median of the \<open>k\<close>-th configured segment, as line 72 computes it for that
  segment's label.
\<close>

definition segment_median :: "'g NumPy \<Rightarrow> nat \<Rightarrow> real option" where
  "segment_median G k =
     map_option (\<lambda>m. round_nd (float64 G) m 2)
       (median (group_values (df G) (fst (segments ! k))))"

text \<open>The arguments of the \<open>i\<close>-th call of \<^verbatim>\<open>ax.text\<close> when the median shown is \<open>m\<close>.\<close>

definition median_text :: "nat \<Rightarrow> real option \<Rightarrow> real \<times> real option \<times> string" where
  "median_text i m = (real i, map_option (\<lambda>v. v * 1.02) m, ''Median: $'' @ format_2f m)"

text \<open>
  Concrete parameters, on which the properties are instantiated.  All of them compute
  exactly (\<open>float64\<close> is the identity).
  \<^item> \<open>stub_rng f heavy\<close> has no state: every lognormal draw with mean parameter \<open>mu\<close> is
    \<open>f mu\<close>, every mark is the last offered value when \<open>heavy\<close> holds and the first
    otherwise, every uniform draw is the lower bound.
  \<^item> \<open>demo_rng\<close> is the stub that draws 30 for every 'Low value' sample (\<open>mu = 3.0\<close>), 42 for
    every 'Mid value' sample and 50 for every 'High value' sample, and marks no outlier.
  \<^item> \<open>tail_rng\<close> counts its draws: it marks no outlier, and every lognormal draw is 10 except
    the last six lognormal draws of the run (generator states 3194 to 3199, the end of
    'High value'), which are 100.
  \<^item> \<open>first_rows\<close> samples the first \<open>k\<close> positions.
\<close>

definition stub_rng :: "(real \<Rightarrow> real) \<Rightarrow> bool \<Rightarrow> unit NumPy" where
  "stub_rng f heavy =
     \<lparr>default_rng = (\<lambda>seed. ()),
      lognormal = (\<lambda>mu sigma g. (f mu, ())),
      choice = (\<lambda>xs ps g. (if heavy then last xs else hd xs, ())),
      uniform = (\<lambda>a b g. (a, ())),
      float64 = (\<lambda>x. x)\<rparr>"

definition demo_rng :: "unit NumPy" where
  "demo_rng = stub_rng (\<lambda>mu. 10 * mu) False"

definition tail_rng :: "nat NumPy" where
  "tail_rng =
     \<lparr>default_rng = (\<lambda>seed. 0),
      lognormal = (\<lambda>mu sigma g. (if 3194 \<le> g then 100 else 10, Suc g)),
      choice = (\<lambda>xs ps g. (hd xs, Suc g)),
      uniform = (\<lambda>a b g. (a, Suc g)),
      float64 = (\<lambda>x. x)\<rparr>"

definition first_rows :: sampler where
  "first_rows seed n k = [0..<k]"

section \<open>Properties of the generated dataset\<close>

lemma draws_Suc:
  "draws f (Suc k) g =
     (fst (f g) # fst (draws f k (snd (f g))), snd (draws f k (snd (f g))))"
  by (simp split: prod.splits)

lemma length_draws: "length (fst (draws f k g)) = k"
  by (induction k arbitrary: g) (simp_all add: draws_Suc del: draws.simps(2))

lemma draws_all: "(\<And>g. P (fst (f g))) \<Longrightarrow> x \<in> set (fst (draws f k g)) \<Longrightarrow> P x"
  by (induction k arbitrary: g) (auto simp add: draws_Suc simp del: draws.simps(2))

lemma segment_draws_lengths:
  "segment_draws G (k, mu, sigma) g = ((samples, heavy_tail, us), g') \<Longrightarrow>
     length samples = k \<and> length heavy_tail = k \<and> length us = k"
  unfolding segment_draws_def
  by (auto split: prod.splits) (metis fst_conv length_draws)+

lemma length_apply_heavy_tail:
  "length samples = k \<Longrightarrow> length heavy_tail = k \<Longrightarrow> length us = k \<Longrightarrow>
     length (apply_heavy_tail (samples, heavy_tail, us)) = k"
  by (simp add: apply_heavy_tail_def)

lemma length_segment_samples: "length (fst (segment_samples G (k, mu, sigma) g)) = k"
proof -
  obtain samples heavy_tail us g' where d: "segment_draws G (k, mu, sigma) g = ((samples, heavy_tail, us), g')"
    by (metis prod.exhaust)
  from segment_draws_lengths [OF d] show ?thesis
    by (simp add: segment_samples_def d length_apply_heavy_tail)
qed

lemma segment_samples_eq:
  "segment_samples G p g = (apply_heavy_tail (fst (segment_draws G p g)), snd (segment_draws G p g))"
  by (simp add: segment_samples_def split: prod.splits)

lemma gen_rows_Cons:
  "gen_rows G ((seg, p) # rest) g =
     map (mk_row (float64 G) seg) (apply_heavy_tail (fst (segment_draws G p g)))
       @ gen_rows G rest (snd (segment_samples G p g))"
  by (simp add: segment_samples_eq)

lemma df_blocks:
  "df G = map (mk_row (float64 G) ''Low value'') (apply_heavy_tail (draws_of G 0))
        @ map (mk_row (float64 G) ''Mid value'') (apply_heavy_tail (draws_of G 1))
        @ map (mk_row (float64 G) ''High value'') (apply_heavy_tail (draws_of G 2))"
  unfolding df_def draws_of_def segments_def
  by (simp only: gen_rows_Cons gen_rows.simps state_after.simps nth_Cons_0 nth_Cons_Suc
        take_Suc_Cons take_0 snd_conv append_Nil2 One_nat_def numeral_2_eq_2)

lemma length_draws_of:
  "length (apply_heavy_tail (draws_of G 0)) = 550"
  "length (apply_heavy_tail (draws_of G 1)) = 450"
  "length (apply_heavy_tail (draws_of G 2)) = 200"
  using length_segment_samples [of G]
  by (simp_all add: draws_of_def segments_def segment_samples_eq)

lemma inflate_cases:
  "h \<in> {0, 1} \<Longrightarrow> inflate (s, h, u) = (if h = 1 then s * (1 + u) else s)"
  by (auto simp add: inflate_def)

lemma inflate_bounds:
  assumes "0 < (s::real)" "3 \<le> u" "u \<le> 10"
  shows "4 * s \<le> s * (1 + u) \<and> s * (1 + u) \<le> 11 * s"
proof -
  have "0 \<le> s * (u - 3)" using assms by simp
  moreover have "0 \<le> s * (10 - u)" using assms by simp
  ultimately show ?thesis by (simp add: algebra_simps)
qed

lemma segment_draws_support:
  assumes G: "in_support G"
    and d: "segment_draws G p g = ((samples, heavy_tail, us), g')"
  shows "(\<forall>s \<in> set samples. 0 < s) \<and> (\<forall>h \<in> set heavy_tail. h \<in> {0, 1}) \<and>
         (\<forall>u \<in> set us. 3 \<le> u \<and> u \<le> 10) \<and>
         length heavy_tail = length samples \<and> length us = length samples"
proof -
  obtain k mu sigma where p: "p = (k, mu, sigma)" by (cases p) auto
  define g1 where "g1 = snd (draws (lognormal G mu sigma) k g)"
  define g2 where "g2 = snd (draws (choice G [0, 1] [0.97, 0.03]) k g1)"
  from d have s: "samples = fst (draws (lognormal G mu sigma) k g)"
    and h: "heavy_tail = fst (draws (choice G [0, 1] [0.97, 0.03]) k g1)"
    and u: "us = fst (draws (uniform G 3.0 10.0) k g2)"
    by (auto simp add: segment_draws_def p g1_def g2_def split: prod.splits)
  from G have c: "\<forall>xs ps g. xs \<noteq> [] \<longrightarrow> fst (choice G xs ps g) \<in> set xs"
    and r: "\<forall>a b g. a \<le> b \<longrightarrow> a \<le> fst (uniform G a b g) \<and> fst (uniform G a b g) \<le> b"
    and l: "\<forall>mu sigma g. 0 < fst (lognormal G mu sigma g)"
    by (simp_all add: in_support_def)
  have c': "fst (choice G [0, 1] [0.97, 0.03] g) \<in> {0, 1}" for g
  proof -
    have "[0, 1::nat] \<noteq> []" by simp
    with c have "fst (choice G [0, 1] [0.97, 0.03] g) \<in> set [0, 1]" by blast
    then show ?thesis by simp
  qed
  have r': "3 \<le> fst (uniform G 3.0 10.0 g) \<and> fst (uniform G 3.0 10.0 g) \<le> 10" for g
  proof -
    have "(3.0::real) \<le> 10.0" by simp
    with r have "3.0 \<le> fst (uniform G 3.0 10.0 g) \<and> fst (uniform G 3.0 10.0 g) \<le> 10.0"
      by blast
    then show ?thesis by simp
  qed
  have "\<forall>x \<in> set samples. 0 < x"
    unfolding s using draws_all [where P = "\<lambda>x. 0 < x" and f = "lognormal G mu sigma"] l
    by blast
  moreover have "\<forall>x \<in> set heavy_tail. x \<in> {0, 1}"
    unfolding h using draws_all [where P = "\<lambda>x. x \<in> {0, 1}"
        and f = "choice G [0, 1] [0.97, 0.03]"] c' by blast
  moreover have "\<forall>x \<in> set us. 3 \<le> x \<and> x \<le> 10"
    unfolding u using draws_all [where P = "\<lambda>x. 3 \<le> x \<and> x \<le> 10"
        and f = "uniform G 3.0 10.0"] r' by blast
  ultimately show ?thesis by (simp add: s h u length_draws)
qed

lemma in_range_first_rows: "in_range first_rows"
  by (simp add: in_range_def first_rows_def)

lemma draws_unit: "draws f k () = (replicate k (fst (f ())), ())"
  by (induction k) (simp_all add: draws_Suc del: draws.simps(2))

lemma segment_draws_stub:
  "segment_draws (stub_rng f heavy) (k, mu, sigma) g =
     ((replicate k (f mu), replicate k (if heavy then 1 else 0), replicate k 3), ())"
  by (cases g) (simp add: segment_draws_def stub_rng_def draws_unit)

lemma apply_heavy_tail_replicate:
  "apply_heavy_tail (replicate k s, replicate k h, replicate k u) = replicate k (inflate (s, h, u))"
  by (simp add: apply_heavy_tail_def zip_replicate)

lemma draws_of_stub:
  "k < 3 \<Longrightarrow> apply_heavy_tail (draws_of (stub_rng f heavy) k) =
     replicate (fst (snd (segments ! k)))
       (inflate (f (fst (snd (snd (segments ! k)))), if heavy then 1 else 0, 3))"
  by (cases "snd (segments ! k)")
    (simp add: draws_of_def segment_draws_stub apply_heavy_tail_replicate)

lemma float64_stub: "float64 (stub_rng f heavy) = (\<lambda>x. x)"
  by (simp add: stub_rng_def)

lemma df_stub:
  "df (stub_rng f heavy) =
     replicate 550 (mk_row (\<lambda>x. x) ''Low value'' (inflate (f 3.0, if heavy then 1 else 0, 3)))
     @ replicate 450 (mk_row (\<lambda>x. x) ''Mid value'' (inflate (f 4.2, if heavy then 1 else 0, 3)))
     @ replicate 200 (mk_row (\<lambda>x. x) ''High value'' (inflate (f 5.0, if heavy then 1 else 0, 3)))"
proof -
  have "apply_heavy_tail (draws_of (stub_rng f heavy) 0)
      = replicate 550 (inflate (f 3.0, if heavy then 1 else 0, 3))"
    by (simp add: draws_of_stub segments_def)
  moreover have "apply_heavy_tail (draws_of (stub_rng f heavy) 1)
      = replicate 450 (inflate (f 4.2, if heavy then 1 else 0, 3))"
    by (simp add: draws_of_stub segments_def del: One_nat_def)
  moreover have "apply_heavy_tail (draws_of (stub_rng f heavy) 2)
      = replicate 200 (inflate (f 5.0, if heavy then 1 else 0, 3))"
    by (simp add: draws_of_stub segments_def)
  ultimately show ?thesis
    by (simp only: df_blocks map_replicate float64_stub)
qed

lemma length_df: "length (df G) = 1200"
  by (simp add: df_blocks length_draws_of del: One_nat_def)

lemma filter_mk_row:
  "filter (\<lambda>r. segment r = k) (map (mk_row fl seg) xs) = (if seg = k then map (mk_row fl seg) xs else [])"
  by (induction xs) (simp_all add: mk_row_def)

lemma segment_mk_row: "map segment (map (mk_row fl seg) xs) = replicate (length xs) seg"
  by (induction xs) (simp_all add: mk_row_def)

lemma group_values_df:
  "group_values (df G) ''Low value'' = map (\<lambda>a. round_nd (float64 G) a 2) (apply_heavy_tail (draws_of G 0))"
  "group_values (df G) ''Mid value'' = map (\<lambda>a. round_nd (float64 G) a 2) (apply_heavy_tail (draws_of G 1))"
  "group_values (df G) ''High value'' = map (\<lambda>a. round_nd (float64 G) a 2) (apply_heavy_tail (draws_of G 2))"
  unfolding group_values_def df_blocks filter_append filter_mk_row
  by (simp_all add: mk_row_def del: One_nat_def)

lemma segments_df:
  "map segment (df G) =
     replicate 550 ''Low value'' @ replicate 450 ''Mid value'' @ replicate 200 ''High value''"
  by (simp only: df_blocks map_append segment_mk_row length_draws_of)

lemma sorted_keys: 
  "sort (remdups [''Low value'', ''Mid value'', ''High value''])
     = [''High value'', ''Low value'', ''Mid value'']"
  by code_simp

lemma groupby_keys:
  "sort (remdups (map segment (df G))) = [''High value'', ''Low value'', ''Mid value'']"
proof -
  have "set (map segment (df G)) = set [''Low value'', ''Mid value'', ''High value'']"
    unfolding segments_df by auto
  then have "sorted_list_of_set (set (map segment (df G)))
      = sorted_list_of_set (set [''Low value'', ''Mid value'', ''High value''])"
    by (rule arg_cong)
  then show ?thesis
    by (simp only: sorted_list_of_set_sort_remdups sorted_keys)
qed

lemma categorical_order_replicate:
  "0 < k \<Longrightarrow> categorical_order (replicate k x @ ys) = x # categorical_order (filter (\<lambda>y. y \<noteq> x) ys)"
  by (cases k) simp_all

lemma boxplot_order:
  "categorical_order (map segment (df G)) = [''Low value'', ''Mid value'', ''High value'']"
proof -
  have "categorical_order (replicate 550 ''Low value'' @ replicate 450 ''Mid value''
          @ replicate 200 ''High value'')
      = ''Low value'' # categorical_order (replicate 450 ''Mid value'' @ replicate 200 ''High value'')"
    by (subst categorical_order_replicate) simp_all
  also have "categorical_order (replicate 450 ''Mid value'' @ replicate 200 ''High value'')
      = ''Mid value'' # categorical_order (replicate 200 ''High value'' @ [])"
    by (subst categorical_order_replicate) simp_all
  also have "categorical_order (replicate 200 ''High value'' @ []) = [''High value'']"
    by (subst categorical_order_replicate) simp_all
  finally show ?thesis by (simp only: segments_df)
qed

lemma boxes_df:
  "boxes (boxplot (df G) ax) =
     [(''Low value'', group_values (df G) ''Low value''),
      (''Mid value'', group_values (df G) ''Mid value''),
      (''High value'', group_values (df G) ''High value'')]"
  by (simp add: boxplot_def boxplot_order)

lemma groupby_median_df:
  "groupby_median (float64 G) (df G) =
     [(''High value'', segment_median G 2), (''Low value'', segment_median G 0),
      (''Mid value'', segment_median G 1)]"
  by (simp add: groupby_median_def groupby_keys segment_median_def segments_def)

lemma annotate_medians_df:
  "annotate_medians (float64 G) (df G) ax =
     Inr (ax\<lparr>texts := texts ax @
       [median_text 0 (segment_median G 2), median_text 1 (segment_median G 0),
        median_text 2 (segment_median G 1)]\<rparr>)"
  by (simp add: annotate_medians_def groupby_median_df series_get_def median_text_def)

lemma quantile_df:
  "quantile (map purchase_amount (df G)) 0.995 =
     Inr (Some (let s = sort (map purchase_amount (df G))
                in s ! 1193 + (s ! 1194 - s ! 1193) * 0.005))"
proof -
  have n: "length (map purchase_amount (df G)) = 1200" by (simp add: length_df)
  then have ne: "map purchase_amount (df G) \<noteq> []" by auto
  have p: "(real (1200::nat) - 1) * 0.995 = 1193.005" by simp
  have f: "nat \<lfloor>1193.005::real\<rfloor> = 1193" by simp
  show ?thesis
    unfolding quantile_def n p f Let_def using ne by simp
qed

lemma sample_df:
  assumes "in_range S"
  shows "sample_frac S (df G) 0.25 1 = Inr (map (\<lambda>i. df G ! i) (S 1 1200 300))"
proof -
  have "rint 300 = 300" by (simp add: rint_def)
  then have k: "nat (rint (0.25 * real (length (df G)))) = 300" by (simp add: length_df)
  from assms have "(300::nat) \<le> 1200 \<longrightarrow> (\<forall>i \<in> set (S 1 1200 300). i < 1200)"
    unfolding in_range_def by blast
  then have "\<forall>i \<in> set (S 1 1200 300). i < 1200" by simp
  then show ?thesis
    unfolding sample_frac_def k by (simp add: take_rows_def length_df)
qed

lemma annotate_medians_fields:
  "annotate_medians (float64 G) (df G) ax = Inr ax' \<Longrightarrow>
     boxes ax' = boxes ax \<and> strip ax' = strip ax \<and> ylim ax' = ylim ax \<and>
     texts ax' = texts ax @
       [median_text 0 (segment_median G 2), median_text 1 (segment_median G 0),
        median_text 2 (segment_median G 1)]"
  by (auto simp add: annotate_medians_df)

lemma float_tiny_small: "10 ^ 21 * float_tiny \<le> 1 / 1000"
proof -
  have "(2::real) ^ 80 \<le> 2 ^ 1022" by (rule power_increasing) simp_all
  moreover have "(10::real) ^ 24 \<le> 2 ^ 80" by simp
  ultimately have "(10::real) ^ 24 \<le> 2 ^ 1022" by (rule order_trans [rotated])
  then have "1 / (2::real) ^ 1022 \<le> 1 / 10 ^ 24"
    by (intro divide_left_mono) simp_all
  then have "10 ^ 21 * (1 / (2::real) ^ 1022) \<le> 10 ^ 21 * (1 / 10 ^ 24)"
    by (intro mult_left_mono) simp_all
  then show ?thesis by (simp add: float_tiny_def)
qed

lemma nonsingular_regular:
  assumes "1 / 1000 \<le> t"
  shows "nonsingular 0 t = (0, t)"
proof -
  from assms float_tiny_small have a: "\<not> t < 10 ^ 21 * float_tiny" by linarith
  from assms have b: "\<not> t \<le> t * (1 / 10 ^ 15)" by simp
  from assms have "min 0 t = 0" "max 0 t = t" by simp_all
  with a b assms show ?thesis
    by (simp add: nonsingular_def Let_def)
qed

lemma set_ylim_regular:
  assumes "1 / 1000 \<le> t"
  shows "set_ylim 0 (Some t) ax = Inr (ax\<lparr>ylim := Some (0, t)\<rparr>)"
  using assms by (simp add: set_ylim_def nonsingular_regular)

lemma set_ylim_Some: "\<exists>lo hi. set_ylim ymin (Some t) ax = Inr (ax\<lparr>ylim := Some (lo, hi)\<rparr>)"
  by (cases "nonsingular ymin t") (auto simp add: set_ylim_def)

lemma draw_df:
  assumes "in_range S"
  shows "\<exists>ax ax0 q. draw G S = Inr ax \<and>
     quantile (map purchase_amount (df G)) 0.995 = Inr (Some q) \<and>
     set_ylim 0 (Some (q * 1.05)) (decorate (stripplot (map (\<lambda>i. df G ! i) (S 1 1200 300))
        (boxplot (df G) new_axes))) = Inr ax0 \<and>
     boxes ax = [(''Low value'', group_values (df G) ''Low value''),
                 (''Mid value'', group_values (df G) ''Mid value''),
                 (''High value'', group_values (df G) ''High value'')] \<and>
     strip ax = map (\<lambda>i. df G ! i) (S 1 1200 300) \<and>
     ylim ax = ylim ax0 \<and>
     texts ax = [median_text 0 (segment_median G 2), median_text 1 (segment_median G 0),
                 median_text 2 (segment_median G 1)]"
proof -
  obtain q where q: "quantile (map purchase_amount (df G)) 0.995 = Inr (Some q)"
    using quantile_df [of G] by simp
  let ?ax = "decorate (stripplot (map (\<lambda>i. df G ! i) (S 1 1200 300)) (boxplot (df G) new_axes))"
  obtain lo hi where y: "set_ylim 0 (Some (q * 1.05)) ?ax = Inr (?ax\<lparr>ylim := Some (lo, hi)\<rparr>)"
    using set_ylim_Some by blast
  obtain ax where ax: "annotate_medians (float64 G) (df G) (?ax\<lparr>ylim := Some (lo, hi)\<rparr>) = Inr ax"
    by (simp add: annotate_medians_df)
  have d: "draw G S = Inr ax"
    unfolding draw_def sample_df [OF assms] q using ax y by simp
  from annotate_medians_fields [OF ax]
  have "boxes ax = boxes (boxplot (df G) new_axes)"
    and "strip ax = map (\<lambda>i. df G ! i) (S 1 1200 300)"
    and "ylim ax = ylim (?ax\<lparr>ylim := Some (lo, hi)\<rparr>)"
    and "texts ax = [median_text 0 (segment_median G 2), median_text 1 (segment_median G 0),
                 median_text 2 (segment_median G 1)]"
    by (simp_all add: decorate_def stripplot_def boxplot_def new_axes_def)
  with d q y show ?thesis
    by (simp only: boxes_df) blast
qed

lemma draw_ylim:
  assumes "in_range S" and "quantile (map purchase_amount (df G)) 0.995 = Inr (Some q)"
    and "1 / 100 \<le> q"
  shows "\<exists>ax. draw G S = Inr ax \<and> ylim ax = Some (0, q * 1.05)"
proof -
  from draw_df [OF assms(1), of G] obtain ax ax0 q' where d: "draw G S = Inr ax"
    and q': "quantile (map purchase_amount (df G)) 0.995 = Inr (Some q')"
    and y: "set_ylim 0 (Some (q' * 1.05))
        (decorate (stripplot (map (\<lambda>i. df G ! i) (S 1 1200 300)) (boxplot (df G) new_axes)))
        = Inr ax0"
    and e: "ylim ax = ylim ax0" by blast
  from q' assms(2) have "q' = q" by simp
  from assms(3) have "1 / 1000 \<le> q * 1.05" by simp
  from set_ylim_regular [OF this] y have "ylim ax0 = Some (0, q * 1.05)"
    unfolding \<open>q' = q\<close> by auto
  with d e show ?thesis by simp
qed

lemma median_replicate: "0 < k \<Longrightarrow> median (replicate k v) = Some v"
proof -
  assume k: "0 < k"
  have s: "sort (replicate k v) = replicate k v"
    by (rule sorted_sort_id) simp
  from k have "k div 2 < k" "k div 2 - 1 < k" by simp_all
  with k show ?thesis
    by (auto simp add: median_def s Let_def)
qed

lemma df_demo:
  "df demo_rng = replicate 550 (mk_row (\<lambda>x. x) ''Low value'' 30) @ replicate 450 (mk_row (\<lambda>x. x) ''Mid value'' 42)
     @ replicate 200 (mk_row (\<lambda>x. x) ''High value'' 50)"
  by (simp add: demo_rng_def df_stub inflate_def)

lemma round_nd_demo: "round_nd (\<lambda>x. x) 30 2 = 30" "round_nd (\<lambda>x. x) 42 2 = 42"
  "round_nd (\<lambda>x. x) 50 2 = 50"
  by (simp_all add: round_nd_def rint_def)

lemma group_values_demo:
  "group_values (df demo_rng) ''Low value'' = replicate 550 30"
  "group_values (df demo_rng) ''Mid value'' = replicate 450 42"
  "group_values (df demo_rng) ''High value'' = replicate 200 50"
  by (simp_all add: group_values_def df_demo mk_row_def round_nd_demo)

lemma float64_demo: "float64 demo_rng = (\<lambda>x. x)"
  by (simp add: demo_rng_def stub_rng_def)

lemma segment_median_demo:
  "segment_median demo_rng 0 = Some 30"
  "segment_median demo_rng 1 = Some 42"
  "segment_median demo_rng 2 = Some 50"
  by (simp_all add: segment_median_def segments_def group_values_demo median_replicate
      round_nd_demo float64_demo)

lemma format_demo:
  "format_2f (Some 30) = ''30.00''" "format_2f (Some 42) = ''42.00''" "format_2f (Some 50) = ''50.00''"
proof -
  have r: "rint 3000 = 3000" "rint 4200 = 4200" "rint 5000 = 5000"
    by (simp_all add: rint_def)
  have d: "decimal 30 = ''30''" "decimal 42 = ''42''" "decimal 50 = ''50''"
    by code_simp+
  show "format_2f (Some 30) = ''30.00''" "format_2f (Some 42) = ''42.00''"
    "format_2f (Some 50) = ''50.00''"
    by (simp_all add: format_2f_def r d digit_char_def Let_def)
qed

lemma median_text_demo:
  "median_text 0 (Some 50) = (0, Some 51, ''Median: $50.00'')"
  "median_text 1 (Some 30) = (1, Some 30.6, ''Median: $30.00'')"
  "median_text 2 (Some 42) = (2, Some 42.84, ''Median: $42.00'')"
  by (simp_all add: median_text_def format_demo)



lemma heavy_tail_nth:
  assumes "in_support G"
    and "segment_draws G p g = ((samples, heavy_tail, us), g')"
    and "i < length samples"
  shows "0 < samples ! i \<and> heavy_tail ! i \<in> {0, 1} \<and> 3 \<le> us ! i \<and> us ! i \<le> 10 \<and>
     apply_heavy_tail (samples, heavy_tail, us) ! i =
       (if heavy_tail ! i = 1 then samples ! i * (1 + us ! i) else samples ! i) \<and>
     (heavy_tail ! i = 1 \<longrightarrow>
        4 * samples ! i \<le> apply_heavy_tail (samples, heavy_tail, us) ! i \<and>
        apply_heavy_tail (samples, heavy_tail, us) ! i \<le> 11 * samples ! i)"
proof -
  from segment_draws_support [OF assms(1,2)] assms(3)
  have s: "0 < samples ! i" and h: "heavy_tail ! i \<in> {0, 1}"
    and u: "3 \<le> us ! i" "us ! i \<le> 10"
    and len: "i < length heavy_tail" "i < length us"
    by (simp_all add: all_set_conv_all_nth)
  have "apply_heavy_tail (samples, heavy_tail, us) ! i = inflate (samples ! i, heavy_tail ! i, us ! i)"
    using assms(3) len by (simp add: apply_heavy_tail_def)
  then have a: "apply_heavy_tail (samples, heavy_tail, us) ! i =
      (if heavy_tail ! i = 1 then samples ! i * (1 + us ! i) else samples ! i)"
    using h by (simp only: inflate_cases)
  from inflate_bounds [OF s u] a s h u show ?thesis by simp
qed

lemma draws_of_segment_draws:
  "\<exists>g g'. segment_draws G (snd (segments ! k)) g = (draws_of G k, g')"
  unfolding draws_of_def by (metis prod.collapse)

lemma offset_values: "offset 0 = 0" "offset 1 = 550" "offset 2 = 1000"
  by (simp_all add: offset_def segments_def numeral_2_eq_2)

lemma df_nth:
  assumes "k < 3" and "i < fst (snd (segments ! k))"
  shows "df G ! (offset k + i) =
     mk_row (float64 G) (fst (segments ! k)) (apply_heavy_tail (draws_of G k) ! i)"
proof -
  from assms(1) consider "k = 0" | "k = 1" | "k = 2" by linarith
  then show ?thesis
  proof cases
    case 1
    with assms(2) have "i < 550" by (simp add: segments_def)
    then show ?thesis
      unfolding 1 offset_values df_blocks
      by (simp add: nth_append length_draws_of segments_def)
  next
    case 2
    with assms(2) have "i < 450" by (simp add: segments_def)
    then show ?thesis
      unfolding 2 offset_values df_blocks
      by (simp add: nth_append length_draws_of segments_def del: One_nat_def)
  next
    case 3
    with assms(2) have "i < 200" by (simp add: segments_def)
    then show ?thesis
      unfolding 3 offset_values df_blocks
      by (simp add: nth_append length_draws_of segments_def del: One_nat_def)
  qed
qed

lemma draws_of_stub_all:
  "draws_of (stub_rng f heavy) 0 =
     (replicate 550 (f 3.0), replicate 550 (if heavy then 1 else 0), replicate 550 3)"
  by (simp add: draws_of_def segments_def segment_draws_stub)

lemma draws_count:
  assumes "\<And>g. f g = (v g, Suc g)"
  shows "draws f k g = (map v [g..<g + k], g + k)"
proof (induction k arbitrary: g)
  case 0
  then show ?case by simp
next
  case (Suc k)
  have "[g..<g + Suc k] = g # [Suc g..<Suc g + k]"
    by (simp add: upt_conv_Cons)
  with Suc [of "Suc g"] show ?case
    by (simp add: draws_Suc assms del: draws.simps(2))
qed

lemma map_const: "(\<And>x. x \<in> set xs \<Longrightarrow> f x = c) \<Longrightarrow> map f xs = replicate (length xs) c"
  by (induction xs) simp_all

lemma segment_draws_tail:
  "segment_draws tail_rng (n, mu, sigma) g =
     ((map (\<lambda>g. if 3194 \<le> g then 100 else 10) [g..<g + n], replicate n 0, replicate n 3),
      g + 3 * n)"
proof -
  have l: "draws (lognormal tail_rng mu sigma) n g
      = (map (\<lambda>g. if 3194 \<le> g then 100 else 10) [g..<g + n], g + n)"
    by (rule draws_count) (simp add: tail_rng_def)
  have c: "draws (choice tail_rng [0, 1] [0.97, 0.03]) n (g + n)
      = (map (\<lambda>g. 0) [g + n..<g + n + n], g + n + n)"
    by (rule draws_count) (simp add: tail_rng_def)
  have u: "draws (uniform tail_rng 3.0 10.0) n (g + n + n)
      = (map (\<lambda>g. 3) [g + n + n..<g + n + n + n], g + n + n + n)"
    by (rule draws_count) (simp add: tail_rng_def)
  show ?thesis
    unfolding segment_draws_def prod.case l c u
    by (simp add: map_replicate_const)
qed

lemma apply_heavy_tail_unmarked:
  "apply_heavy_tail (xs, replicate (length xs) 0, replicate (length xs) u) = xs"
  by (induction xs) (simp_all add: apply_heavy_tail_def inflate_def)

lemma segment_samples_tail:
  "segment_samples tail_rng (n, mu, sigma) g =
     (map (\<lambda>g. if 3194 \<le> g then 100 else 10) [g..<g + n], g + 3 * n)"
  using apply_heavy_tail_unmarked [of "map (\<lambda>g. if 3194 \<le> g then 100 else 10) [g..<g + n]" 3]
  by (simp add: segment_samples_eq segment_draws_tail)

lemma map_upt_const:
  "(\<And>x. a \<le> x \<Longrightarrow> x < b \<Longrightarrow> f x = c) \<Longrightarrow> map f [a..<b] = replicate (b - a) c"
  using map_const [of "[a..<b]" f c] by simp

lemma tail_blocks:
  "map (\<lambda>g. if 3194 \<le> g then 100 else 10) [0..<550] = replicate 550 (10::real)"
  "map (\<lambda>g. if 3194 \<le> g then 100 else 10) [1650..<2100] = replicate 450 (10::real)"
  "map (\<lambda>g. if 3194 \<le> g then 100 else 10) [3000..<3200]
     = replicate 194 (10::real) @ replicate 6 100"
proof -
  have "map (\<lambda>g. if 3194 \<le> g then 100 else 10) [0..<550] = replicate (550 - 0) (10::real)"
    by (rule map_upt_const) simp
  then show "map (\<lambda>g. if 3194 \<le> g then 100 else 10) [0..<550] = replicate 550 (10::real)"
    by (simp del: upt_rec_numeral)
  have "map (\<lambda>g. if 3194 \<le> g then 100 else 10) [1650..<2100]
      = replicate (2100 - 1650) (10::real)"
    by (rule map_upt_const) simp
  then show "map (\<lambda>g. if 3194 \<le> g then 100 else 10) [1650..<2100] = replicate 450 (10::real)"
    by (simp del: upt_rec_numeral)
  have "[3000..<3194 + 6] = [3000..<3194] @ [3194..<3194 + 6]"
    by (rule upt_add_eq_append) simp
  then have e: "[3000..<3200] = [3000..<3194] @ [3194..<3200]"
    by (simp del: upt_rec_numeral)
  have "map (\<lambda>g. if 3194 \<le> g then 100 else 10) [3000..<3194]
      = replicate (3194 - 3000) (10::real)"
    by (rule map_upt_const) simp
  moreover have "map (\<lambda>g. if 3194 \<le> g then 100 else 10) [3194..<3200]
      = replicate (3200 - 3194) (100::real)"
    by (rule map_upt_const) simp
  ultimately show "map (\<lambda>g. if 3194 \<le> g then 100 else 10) [3000..<3200]
     = replicate 194 (10::real) @ replicate 6 100"
    unfolding e by (simp del: upt_rec_numeral)
qed

lemma segment_samples_tail_run:
  "segment_samples tail_rng (550, mu, sigma) 0 = (replicate 550 10, 1650)"
  "segment_samples tail_rng (450, mu, sigma) 1650 = (replicate 450 10, 3000)"
  "segment_samples tail_rng (200, mu, sigma) 3000 = (replicate 194 10 @ replicate 6 100, 3600)"
  by (simp_all add: segment_samples_tail tail_blocks del: upt_rec_numeral)

lemma round_nd_tail: "round_nd (\<lambda>x. x) 10 2 = 10" "round_nd (\<lambda>x. x) 100 2 = 100"
  by (simp_all add: round_nd_def rint_def)

lemma amounts_tail:
  "map purchase_amount (df tail_rng) = replicate 1194 10 @ replicate 6 100"
proof -
  have f: "float64 tail_rng = (\<lambda>x. x)" and s: "default_rng tail_rng 42 = 0"
    by (simp_all add: tail_rng_def)
  have "df tail_rng =
      map (mk_row (\<lambda>x. x) ''Low value'') (replicate 550 10)
      @ map (mk_row (\<lambda>x. x) ''Mid value'') (replicate 450 10)
      @ map (mk_row (\<lambda>x. x) ''High value'') (replicate 194 10 @ replicate 6 100)"
    unfolding df_def segments_def s
    by (simp add: segment_samples_tail_run f)
  then have "map purchase_amount (df tail_rng) =
      replicate 550 10 @ replicate 450 10 @ replicate 194 10 @ replicate 6 100"
    by (simp add: mk_row_def round_nd_tail)
  also have "\<dots> = replicate (550 + 450 + 194) 10 @ replicate 6 100"
    by (simp only: replicate_add append_assoc)
  finally show ?thesis by simp
qed

lemma sorted_amounts_tail:
  "sort (map purchase_amount (df tail_rng)) = replicate 1194 10 @ replicate 6 100"
proof -
  have "sorted (replicate 1194 (10::real) @ replicate 6 100)"
    by (auto simp add: sorted_append)
  then show ?thesis unfolding amounts_tail by (rule sorted_sort_id)
qed

lemma percentile_tail:
  "(replicate 1194 (10::real) @ replicate 6 100) ! 1193 = 10"
  "(replicate 1194 (10::real) @ replicate 6 100) ! 1194 = 100"
  by (simp_all add: nth_append)

text \<open>
  C1: each configured segment contributes exactly its configured number of records
  (550 'Low value', 450 'Mid value', 200 'High value'), so the dataset has 1200 records,
  whatever the generator draws.
\<close>

theorem segment_counts:
  "length (filter (\<lambda>r. segment r = ''Low value'') (df G)) = 550 \<and>
   length (filter (\<lambda>r. segment r = ''Mid value'') (df G)) = 450 \<and>
   length (filter (\<lambda>r. segment r = ''High value'') (df G)) = 200 \<and>
   length (df G) = 1200"
  by (simp add: df_blocks filter_mk_row length_draws_of del: One_nat_def)

text \<open>
  C3: take the \<open>i\<close>-th sample of the \<open>k\<close>-th configured segment, with its lognormal draw, its
  outlier mark and its uniform draw \<open>u\<close> between 3 and 10.  The record the dataset holds for
  it, at position \<open>offset k + i\<close>, has as amount the rounding of the draw times \<open>1 + u\<close> when
  the mark is 1, which lies between 4 and 11 times the draw, and the rounding of the draw
  itself when the mark is 0.
\<close>

theorem heavy_tail_factor:
  assumes "in_support G" and "k < 3"
    and "draws_of G k = (samples, heavy_tail, us)"
    and "i < fst (snd (segments ! k))"
  shows "0 < samples ! i \<and> heavy_tail ! i \<in> {0, 1} \<and> 3 \<le> us ! i \<and> us ! i \<le> 10 \<and>
     df G ! (offset k + i) =
       \<lparr>segment = fst (segments ! k),
        purchase_amount =
          round_nd (float64 G)
            (if heavy_tail ! i = 1 then samples ! i * (1 + us ! i) else samples ! i) 2\<rparr> \<and>
     (heavy_tail ! i = 1 \<longrightarrow>
        4 * samples ! i \<le> samples ! i * (1 + us ! i) \<and>
        samples ! i * (1 + us ! i) \<le> 11 * samples ! i)"
proof -
  obtain p where p: "p = snd (segments ! k)" by simp
  from draws_of_segment_draws [of G k] assms(3) obtain g g'
    where d: "segment_draws G p g = ((samples, heavy_tail, us), g')"
    unfolding p by auto
  obtain n mu sigma where pp: "p = (n, mu, sigma)" by (cases p) auto
  from segment_draws_lengths [OF d [unfolded pp]] have "length samples = n" by simp
  with assms(4) have i: "i < length samples" by (simp add: p [symmetric] pp)
  note h = heavy_tail_nth [OF assms(1) d i]
  from df_nth [OF assms(2,4), of G] have "df G ! (offset k + i) =
      mk_row (float64 G) (fst (segments ! k)) (apply_heavy_tail (samples, heavy_tail, us) ! i)"
    by (simp add: assms(3))
  also have "\<dots> = \<lparr>segment = fst (segments ! k),
        purchase_amount =
          round_nd (float64 G)
            (if heavy_tail ! i = 1 then samples ! i * (1 + us ! i) else samples ! i) 2\<rparr>"
    using h by (simp add: mk_row_def)
  finally show ?thesis using h by simp
qed

theorem heavy_tail_factor_witness:
  "in_support (stub_rng (\<lambda>mu. 20) True) \<and> (0::nat) < 3 \<and>
   draws_of (stub_rng (\<lambda>mu. 20) True) 0 = (replicate 550 20, replicate 550 1, replicate 550 3) \<and>
   (0::nat) < fst (snd (segments ! 0)) \<and>
   df (stub_rng (\<lambda>mu. 20) True) ! (offset 0 + 0)
     = \<lparr>segment = ''Low value'', purchase_amount = 80\<rparr> \<and>
   4 * 20 \<le> (20::real) * (1 + 3) \<and> (20::real) * (1 + 3) \<le> 11 * 20"
proof -
  have h1: "in_support (stub_rng (\<lambda>mu. 20) True)"
    by (simp add: in_support_def stub_rng_def)
  have h2: "(0::nat) < 3" by simp
  have h3: "draws_of (stub_rng (\<lambda>mu. 20) True) 0
      = (replicate 550 20, replicate 550 1, replicate 550 3)"
    by (simp add: draws_of_stub_all)
  have h4: "(0::nat) < fst (snd (segments ! 0))" by (simp add: segments_def)
  have r: "round_nd (\<lambda>x. x) 80 2 = 80" by (simp add: round_nd_def rint_def)
  from heavy_tail_factor [OF h1 h2 h3 h4] h1 h3 h4 r show ?thesis
    by (simp add: float64_stub segments_def)
qed

text \<open>
  C5: the claim is that the label drawn at each box's position shows the median of the
  segment plotted there.  The script does otherwise.  The boxes stand in the order of first
  appearance, 'Low value' at \<open>x = 0\<close>, 'Mid value' at \<open>x = 1\<close>, 'High value' at \<open>x = 2\<close>,
  while the loop of lines 73-75 counts through the sorted index of \<^verbatim>\<open>medians\<close>: the label
  at \<open>x = 0\<close> shows the median of 'High value' (the configured segment 2), the label at
  \<open>x = 1\<close> that of 'Low value', the label at \<open>x = 2\<close> that of 'Mid value'.  On \<open>demo_rng\<close>
  the box of 'Low value', whose values are all 30, carries the label "Median: $50.00".
\<close>

theorem median_labels_in_key_order:
  assumes "in_range S"
  shows "\<exists>ax. draw G S = Inr ax \<and>
     boxes ax = [(''Low value'', group_values (df G) ''Low value''),
                 (''Mid value'', group_values (df G) ''Mid value''),
                 (''High value'', group_values (df G) ''High value'')] \<and>
     texts ax = [median_text 0 (segment_median G 2), median_text 1 (segment_median G 0),
                 median_text 2 (segment_median G 1)]"
  using draw_df [OF assms, of G] by blast

theorem median_labels_in_key_order_witness:
  "in_range first_rows \<and>
   (\<exists>ax. draw demo_rng first_rows = Inr ax \<and>
      boxes ax = [(''Low value'', replicate 550 30), (''Mid value'', replicate 450 42),
                  (''High value'', replicate 200 50)] \<and>
      texts ax = [(0, Some 51, ''Median: $50.00''), (1, Some 30.6, ''Median: $30.00''),
                  (2, Some 42.84, ''Median: $42.00'')])"
proof -
  have h: "in_range first_rows"
    by (simp add: in_range_def first_rows_def)
  from median_labels_in_key_order [OF h, of demo_rng] h show ?thesis
    by (simp only: group_values_demo segment_median_demo median_text_demo)
qed

text \<open>
  C7: the upper limit of the vertical axis is 1.05 times the 99.5th percentile of the
  purchase amounts of the whole dataset of 1200 records: with \<open>s\<close> the sorted amounts, the
  percentile is \<open>s ! 1193\<close> plus 0.005 of the step to \<open>s ! 1194\<close>.  This holds when the
  percentile is at least one cent, so that the interval from 0 to the limit is not
  degenerate and Matplotlib keeps it as given.
\<close>

theorem ylim_upper_bound:
  assumes "in_range S"
    and "s = sort (map purchase_amount (df G))"
    and "1 / 100 \<le> s ! 1193 + (s ! 1194 - s ! 1193) * 0.005"
  shows "length s = 1200 \<and>
     quantile (map purchase_amount (df G)) 0.995
       = Inr (Some (s ! 1193 + (s ! 1194 - s ! 1193) * 0.005)) \<and>
     (\<exists>ax. draw G S = Inr ax \<and>
        map_option snd (ylim ax) = Some (1.05 * (s ! 1193 + (s ! 1194 - s ! 1193) * 0.005)))"
proof -
  let ?q = "s ! 1193 + (s ! 1194 - s ! 1193) * 0.005"
  have n: "length s = 1200" by (simp add: assms(2) length_df)
  have q: "quantile (map purchase_amount (df G)) 0.995 = Inr (Some ?q)"
    unfolding quantile_df assms(2) Let_def ..
  from draw_ylim [OF assms(1) q assms(3)] obtain ax where "draw G S = Inr ax"
    and "ylim ax = Some (0, ?q * 1.05)" by blast
  then have "draw G S = Inr ax \<and> map_option snd (ylim ax) = Some (1.05 * ?q)" by simp
  with n q show ?thesis by blast
qed

theorem ylim_upper_bound_witness:
  "in_range first_rows \<and>
   sort (map purchase_amount (df tail_rng)) = replicate 1194 10 @ replicate 6 100 \<and>
   (replicate 1194 (10::real) @ replicate 6 100) ! 1193 = 10 \<and>
   (replicate 1194 (10::real) @ replicate 6 100) ! 1194 = 100 \<and>
   1 / 100 \<le> (10::real) + (100 - 10) * 0.005 \<and>
   quantile (map purchase_amount (df tail_rng)) 0.995 = Inr (Some 10.45) \<and>
   (\<exists>ax. draw tail_rng first_rows = Inr ax \<and> map_option snd (ylim ax) = Some 10.9725)"
proof -
  let ?s = "replicate 1194 (10::real) @ replicate 6 100"
  have h1: "in_range first_rows"
    by (simp add: in_range_def first_rows_def)
  have h2: "?s = sort (map purchase_amount (df tail_rng))"
    by (simp only: sorted_amounts_tail)
  have h3: "1 / 100 \<le> ?s ! 1193 + (?s ! 1194 - ?s ! 1193) * 0.005"
    unfolding percentile_tail by simp
  have v: "?s ! 1193 + (?s ! 1194 - ?s ! 1193) * 0.005 = 10.45"
    unfolding percentile_tail by simp
  have w: "1.05 * (10.45::real) = 10.9725" by simp
  note t = ylim_upper_bound [OF h1 h2 h3, unfolded v w]
  have "1 / 100 \<le> (10::real) + (100 - 10) * 0.005" by simp
  with t h1 h2 percentile_tail show ?thesis by metis
qed

text \<open>
  C8: the dataset is the three blocks in the order the segments are configured, 'Low value',
  then 'Mid value', then 'High value', nothing being shuffled; each block lists the amounts
  of its segment in the order of the draws, rounded.
\<close>

theorem segment_block_order:
  "map fst segments = [''Low value'', ''Mid value'', ''High value''] \<and>
   df G = map (mk_row (float64 G) ''Low value'') (apply_heavy_tail (draws_of G 0))
        @ map (mk_row (float64 G) ''Mid value'') (apply_heavy_tail (draws_of G 1))
        @ map (mk_row (float64 G) ''High value'') (apply_heavy_tail (draws_of G 2)) \<and>
   map segment (df G) =
     replicate 550 ''Low value'' @ replicate 450 ''Mid value'' @ replicate 200 ''High value''"
proof -
  have "map segment (df G) =
     replicate 550 ''Low value'' @ replicate 450 ''Mid value'' @ replicate 200 ''High value''"
    by (simp only: df_blocks map_append segment_mk_row length_draws_of)
  moreover have "map fst segments = [''Low value'', ''Mid value'', ''High value'']"
    by (simp add: segments_def)
  ultimately show ?thesis
    using df_blocks [of G] by simp
qed

text \<open>
  C9: the script writes the one file \<^verbatim>\<open>chart.png\<close>, replacing a file of that name, but
  the image does not have the size of the figure times the resolution, 512 by 512 pixels:
  saved with \<^verbatim>\<open>bbox_inches="tight"\<close>, it has the size of the padded bounding box of what
  was drawn.  For a bounding box of 7.5 by 7.7 inches the image is 492 by 505 pixels.
\<close>

theorem savefig_tight_size:
  assumes "in_range S"
  shows "\<exists>ax. draw G S = Inr ax \<and>
     chart G S tightbbox fs =
       Inr (fs(''chart.png'' \<mapsto>
         \<lparr>px_width = nat \<lfloor>(fst (tightbbox \<lparr>figsize = (8, 8), axes = ax\<rparr>) + 0.2) * 64\<rfloor>,
          px_height = nat \<lfloor>(snd (tightbbox \<lparr>figsize = (8, 8), axes = ax\<rparr>) + 0.2) * 64\<rfloor>\<rparr>))"
proof -
  from draw_df [OF assms, of G] obtain ax where d: "draw G S = Inr ax" by blast
  have "chart G S tightbbox fs =
       Inr (fs(''chart.png'' \<mapsto>
         \<lparr>px_width = nat \<lfloor>(fst (tightbbox \<lparr>figsize = (8, 8), axes = ax\<rparr>) + 0.2) * 64\<rfloor>,
          px_height = nat \<lfloor>(snd (tightbbox \<lparr>figsize = (8, 8), axes = ax\<rparr>) + 0.2) * 64\<rfloor>\<rparr>))"
    by (simp add: chart_def d savefig_def canvas_inches_def pad_inches_def split: prod.splits)
  with d show ?thesis by blast
qed

theorem savefig_tight_size_witness:
  "in_range first_rows \<and>
   chart demo_rng first_rows (\<lambda>fig. (7.5, 7.7)) [''chart.png'' \<mapsto> \<lparr>px_width = 1, px_height = 1\<rparr>]
     = Inr [''chart.png'' \<mapsto> \<lparr>px_width = 492, px_height = 505\<rparr>]"
proof -
  have h: "in_range first_rows"
    by (simp add: in_range_def first_rows_def)
  from savefig_tight_size [OF h, of demo_rng "\<lambda>fig. (7.5, 7.7)"
      "[''chart.png'' \<mapsto> \<lparr>px_width = 1, px_height = 1\<rparr>]"] h
  show ?thesis by auto
qed



end
